theory Spec2Isabelle
  imports Main "HOL-Library.Word"
begin

section \<open>Values of the Go program\<close>

text \<open>
  A \<^verbatim>\<open>[]byte\<close> is a list of 8-bit words. The protobuf \<^verbatim>\<open>int32\<close> fields are 32-bit
  words read as two's complement with \<^term>\<open>sint\<close>. The \<^verbatim>\<open>int64\<close> fields (sizes and
  timestamps) are never part of any arithmetic in this program and are kept as \<^typ>\<open>int\<close>.
  Go's \<^verbatim>\<open>int\<close> is 64 bits wide on the build target (linux, see the Dockerfile); the
  arithmetic of \<^verbatim>\<open>ListFiles\<close> is written on \<^typ>\<open>int\<close> and shown below to stay inside
  the 64-bit range for every pair of \<^verbatim>\<open>int32\<close> arguments.
\<close>

type_synonym bytes = "8 word list"
type_synonym int32 = "32 word"

text \<open>Status codes of \<^verbatim>\<open>google.golang.org/grpc/codes\<close> used by the server.\<close>

datatype code = ResourceExhausted | InvalidArgument | Internal | NotFound

text \<open>
  What a call can end with instead of a value: a gRPC status error, \<^verbatim>\<open>io.EOF\<close>, an
  error of the operating system or of the transport, a run-time panic, or (for a channel
  receive that can never proceed) a goroutine blocked forever.
\<close>

datatype failure =
    Status code string
  | EOF
  | OSError string
  | Panic string
  | Blocked

subsection \<open>Messages of \<^verbatim>\<open>file_service.proto\<close>\<close>

record FileInfo =
  InfoFilename :: string
  ContentType :: string

text \<open>The \<^verbatim>\<open>oneof data\<close> of an upload request; \<open>NoData\<close> is the unset oneof.\<close>

datatype UploadFileRequest = Info FileInfo | ChunkData bytes | NoData

fun GetInfo :: "UploadFileRequest \<Rightarrow> FileInfo option" where
  "GetInfo (Info i) = Some i"
| "GetInfo (ChunkData b) = None"
| "GetInfo NoData = None"

fun GetChunkData :: "UploadFileRequest \<Rightarrow> bytes" where
  "GetChunkData (ChunkData b) = b"
| "GetChunkData (Info i) = []"
| "GetChunkData NoData = []"

record FileMetadata =
  FileId :: string
  Filename :: string
  Size :: int
  CreatedAt :: int
  UpdatedAt :: int

record UploadFileResponse =
  RespId :: string
  RespFilename :: string
  RespSize :: int
  RespCreatedAt :: int

record ListFilesResponse =
  Files :: "FileMetadata list"
  TotalCount :: int32

section \<open>Library functions the storage engine calls\<close>

subsection \<open>\<^verbatim>\<open>fmt.Sprintf("%d", n)\<close>\<close>

text \<open>The digit table of \<^verbatim>\<open>strconv\<close>, indexed by the value of the digit.\<close>

definition digits :: string where
  "digits = ''0123456789''"

definition digit_char :: "nat \<Rightarrow> char" where
  "digit_char d = digits ! d"

fun decimal :: "nat \<Rightarrow> string" where
  "decimal n = (if n < 10 then [digit_char n] else decimal (n div 10) @ [digit_char (n mod 10)])"

declare decimal.simps [simp del]

definition Sprintf_d :: "int \<Rightarrow> string" where
  "Sprintf_d n = (if n < 0 then CHR ''-'' # decimal (nat (- n)) else decimal (nat n))"

subsection \<open>\<^verbatim>\<open>filepath.Join\<close>, \<^verbatim>\<open>ioutil.WriteFile\<close>, \<^verbatim>\<open>os.ReadFile\<close>\<close>

text \<open>
  \<^verbatim>\<open>filepath.Join\<close> skips empty elements and puts the separator between the others.
  The lexical normalisation it applies afterwards (\<^verbatim>\<open>Clean\<close>) is not modelled: every
  path of this program is built from the one storage directory and one name, and the disk
  below is addressed by the path as built.
\<close>

definition filepath_Join :: "string \<Rightarrow> string \<Rightarrow> string" where
  "filepath_Join dir name =
     (if dir = [] then name else if name = [] then dir else dir @ ''/'' @ name)"

text \<open>
  The disk is a map from paths to contents. Whether a write succeeds is decided by the
  operating system, so it is an input of the model: the write completes, or it fails
  before the file is opened (the disk is untouched), or it fails after the file was
  created and truncated and \<open>n\<close> bytes reached it.
\<close>

type_synonym disk = "string \<rightharpoonup> bytes"

datatype write_outcome = WriteOk | OpenFailed string | WriteFailed nat string

fun WriteFile :: "write_outcome \<Rightarrow> disk \<Rightarrow> string \<Rightarrow> bytes \<Rightarrow> failure option \<times> disk" where
  "WriteFile WriteOk d p data = (None, d(p \<mapsto> data))"
| "WriteFile (OpenFailed e) d p data = (Some (OSError e), d)"
| "WriteFile (WriteFailed n e) d p data = (Some (OSError e), d(p \<mapsto> take n data))"

definition ReadFile :: "disk \<Rightarrow> string \<Rightarrow> failure + bytes" where
  "ReadFile d p = (case d p of None \<Rightarrow> Inl (OSError ''no such file or directory'') | Some b \<Rightarrow> Inr b)"

section \<open>The storage engine (package \<^verbatim>\<open>storage\<close>)\<close>

text \<open>
  The struct has a lock, the directory and the catalog. Every method holds the lock from
  its first statement to its return, so a method is one atomic step on the catalog and
  the lock needs no field of its own here.
\<close>

text \<open>The identifier is written \<open>fid\<close> throughout (\<open>id\<close> is HOL's identity function).\<close>

record storage =
  directory :: string
  files :: "string \<rightharpoonup> FileMetadata"

definition NewStorage :: "string \<Rightarrow> storage" where
  "NewStorage dir = \<lparr>directory = dir, files = Map.empty\<rparr>"

text \<open>
  What \<^verbatim>\<open>SaveFile\<close> reads from its environment: \<^verbatim>\<open>time.Now().UnixNano()\<close> for the
  identifier, \<^verbatim>\<open>time.Now().Unix()\<close> for the metadata, and the outcome of the write.
\<close>

record save_env =
  clock_UnixNano :: int
  clock_Unix :: int
  write_result :: write_outcome

definition SaveFile ::
  "save_env \<Rightarrow> storage \<Rightarrow> disk \<Rightarrow> string \<Rightarrow> bytes \<Rightarrow> (failure + string) \<times> storage \<times> disk" where
  "SaveFile env s d fname data =
     (let fid = Sprintf_d (clock_UnixNano env);
          filepath = filepath_Join (directory s) fid
      in case WriteFile (write_result env) d filepath data of
           (Some err, d') \<Rightarrow> (Inl err, s, d')
         | (None, d') \<Rightarrow>
             (let now = clock_Unix env;
                  metadata = \<lparr>FileId = fid, Filename = fname, Size = int (length data),
                              CreatedAt = now, UpdatedAt = now\<rparr>
              in (Inr fid, s\<lparr>files := (files s)(fid \<mapsto> metadata)\<rparr>, d')))"

definition GetFile :: "storage \<Rightarrow> disk \<Rightarrow> string \<Rightarrow> failure + bytes" where
  "GetFile s d fid = ReadFile d (filepath_Join (directory s) fid)"

text \<open>
  \<^verbatim>\<open>ListFiles\<close> ranges over a Go map. The order of a \<^verbatim>\<open>range\<close> over a map is chosen
  by the run time at each loop, so the sequence of keys the loop meets is an input of the
  model; \<open>range_order\<close> says that it enumerates the catalog's keys, each once.
\<close>

definition range_order :: "storage \<Rightarrow> string list \<Rightarrow> bool" where
  "range_order s ks \<longleftrightarrow> distinct ks \<and> set ks = dom (files s)"

text \<open>The loop body with its counter \<open>i\<close>: append inside the window, count, break at \<open>end\<close>.\<close>

fun list_loop :: "int \<Rightarrow> int \<Rightarrow> int \<Rightarrow> 'a list \<Rightarrow> 'a list \<Rightarrow> 'a list" where
  "list_loop start end' i acc [] = acc"
| "list_loop start end' i acc (file # rest) =
     (let acc' = (if i \<ge> start \<and> i < end' then acc @ [file] else acc);
          i' = i + 1
      in if i' \<ge> end' then acc' else list_loop start end' i' acc' rest)"

text \<open>
  \<^verbatim>\<open>make([]*pb.FileMetadata, 0, end-start)\<close> panics when the capacity is negative.
  \<^verbatim>\<open>len(s.files)\<close> is the number of keys; \<^verbatim>\<open>int32(len(s.files))\<close> keeps its low 32 bits.
\<close>

definition ListFiles ::
  "storage \<Rightarrow> string list \<Rightarrow> int32 \<Rightarrow> int32 \<Rightarrow> failure + (FileMetadata list \<times> int32)" where
  "ListFiles s ks pageSize pageNumber =
     (let n = int (card (dom (files s)));
          start = sint pageSize * (sint pageNumber - 1);
          end0 = start + sint pageSize;
          end' = (if end0 > n then n else end0)
      in if end' - start < 0 then Inl (Panic ''makeslice: cap out of range'')
         else Inr (list_loop start end' 0 [] (List.map_filter (files s) ks),
                   word_of_int n))"


text \<open>
  The states the storage engine can reach: any sequence of calls of its three methods on a
  fresh storage. \<^verbatim>\<open>GetFile\<close> and \<^verbatim>\<open>ListFiles\<close> only read.
\<close>

datatype storage_op =
    Save save_env string bytes
  | Get string
  | List "string list" int32 int32

fun apply_op :: "storage_op \<Rightarrow> storage \<times> disk \<Rightarrow> storage \<times> disk" where
  "apply_op (Save env fname data) (s, d) = snd (SaveFile env s d fname data)"
| "apply_op (Get fid) (s, d) = (s, d)"
| "apply_op (List ks pageSize pageNumber) (s, d) = (s, d)"

fun run_ops :: "storage_op list \<Rightarrow> storage \<times> disk \<Rightarrow> storage \<times> disk" where
  "run_ops [] w = w"
| "run_ops (c # cs) w = run_ops cs (apply_op c w)"

text \<open>The number of pages of size \<open>n\<close> that \<open>N\<close> entries fill: \<open>N / n\<close> rounded up.\<close>

definition page_count :: "nat \<Rightarrow> nat \<Rightarrow> nat" where
  "page_count N n = (N + n - 1) div n"

text \<open>
  What every reachable catalog satisfies: it is finite, an entry is stored under its own
  identifier, and its two timestamps are equal.
\<close>

definition catalog_ok :: "storage \<Rightarrow> bool" where
  "catalog_ok s \<longleftrightarrow>
     finite (dom (files s)) \<and>
     (\<forall>fid m. files s fid = Some m \<longrightarrow> FileId m = fid \<and> UpdatedAt m = CreatedAt m)"

subsection \<open>Two example catalogs\<close>

text \<open>
  The catalog after \<^verbatim>\<open>SaveFile("a.txt", "hello")\<close> at 1730000000123456789 ns, and after a
  second save of two bytes as \<^verbatim>\<open>b.txt\<close> one nanosecond later. They are written out here
  once and used in the examples below.
\<close>

abbreviation id_a :: string where
  "id_a \<equiv> ''1730000000123456789''"

abbreviation id_b :: string where
  "id_b \<equiv> ''1730000000123456790''"

abbreviation file_a :: FileMetadata where
  "file_a \<equiv> \<lparr>FileId = id_a, Filename = ''a.txt'', Size = 5,
              CreatedAt = 1730000000, UpdatedAt = 1730000000\<rparr>"

abbreviation file_b :: FileMetadata where
  "file_b \<equiv> \<lparr>FileId = id_b, Filename = ''b.txt'', Size = 2,
              CreatedAt = 1730000001, UpdatedAt = 1730000001\<rparr>"

abbreviation one_file :: storage where
  "one_file \<equiv> \<lparr>directory = ''./storage'', files = [id_a \<mapsto> file_a]\<rparr>"

abbreviation two_files :: storage where
  "two_files \<equiv> \<lparr>directory = ''./storage'', files = [id_a \<mapsto> file_a, id_b \<mapsto> file_b]\<rparr>"

abbreviation save_a :: storage_op where
  "save_a \<equiv> Save \<lparr>clock_UnixNano = 1730000000123456789, clock_Unix = 1730000000,
                   write_result = WriteOk\<rparr> ''a.txt'' [104, 101, 108, 108, 111]"

abbreviation save_b :: storage_op where
  "save_b \<equiv> Save \<lparr>clock_UnixNano = 1730000000123456790, clock_Unix = 1730000001,
                   write_result = WriteOk\<rparr> ''b.txt'' [2, 3]"

text \<open>
  The disk beside the first catalog, and a storage that holds one blob of two full chunks
  and five bytes (2 * 1048576 + 5 zero bytes, saved as \<^verbatim>\<open>big.bin\<close>).
\<close>

abbreviation disk_a :: disk where
  "disk_a \<equiv> [''./storage/1730000000123456789'' \<mapsto> [104, 101, 108, 108, 111]]"

abbreviation big_blob :: bytes where
  "big_blob \<equiv> replicate 2097157 0"

abbreviation save_big :: save_env where
  "save_big \<equiv> \<lparr>clock_UnixNano = 1730000000123456789, clock_Unix = 1730000000,
                write_result = WriteOk\<rparr>"

abbreviation big_file :: storage where
  "big_file \<equiv> \<lparr>directory = ''./storage'',
                files = [id_a \<mapsto> \<lparr>FileId = id_a, Filename = ''big.bin'', Size = 2097157,
                                  CreatedAt = 1730000000, UpdatedAt = 1730000000\<rparr>]\<rparr>"

abbreviation big_disk :: disk where
  "big_disk \<equiv> [''./storage/1730000000123456789'' \<mapsto> big_blob]"

section \<open>The transfer server (package \<^verbatim>\<open>server\<close>)\<close>

subsection \<open>Admission semaphores\<close>

text \<open>
  A semaphore is a channel of \<^verbatim>\<open>struct{}\<close>: its capacity and the number of buffered
  elements are all there is to it. \<open>None\<close> is the nil channel.
\<close>

record chan =
  chan_cap :: nat
  chan_len :: nat

type_synonym semaphore = "chan option"

definition make_chan :: "nat \<Rightarrow> semaphore" where
  "make_chan n = Some \<lparr>chan_cap = n, chan_len = 0\<rparr>"

text \<open>
  \<^verbatim>\<open>select { case ch <- struct{}{}: ... default: ... }\<close>: the send proceeds when the
  channel is not nil and its buffer has room; otherwise the default branch is taken
  (\<open>None\<close>). The only receive of the program is the deferred one of a call that has
  sent, so no receiver ever waits for a sender.
\<close>

fun try_send :: "semaphore \<Rightarrow> semaphore option" where
  "try_send None = None"
| "try_send (Some c) =
     (if chan_len c < chan_cap c then Some (Some (c\<lparr>chan_len := chan_len c + 1\<rparr>)) else None)"

text \<open>\<^verbatim>\<open><-ch\<close>: takes one element; \<open>None\<close> when it cannot proceed (the goroutine blocks).\<close>

fun chan_recv :: "semaphore \<Rightarrow> semaphore option" where
  "chan_recv None = None"
| "chan_recv (Some c) =
     (if 0 < chan_len c then Some (Some (c\<lparr>chan_len := chan_len c - 1\<rparr>)) else None)"

definition MaxUploadConcurrency :: nat where
  "MaxUploadConcurrency = 10"

definition MaxDownloadConcurrency :: nat where
  "MaxDownloadConcurrency = 10"

definition MaxListConcurrency :: nat where
  "MaxListConcurrency = 100"

subsection \<open>The server and its construction\<close>

text \<open>
  The \<^verbatim>\<open>storage\<close> field is an interface value: \<open>None\<close> is nil, \<open>Some st\<close> the storage
  engine in its current state (the server is its only user, so the object is carried
  inside the server).
\<close>

record server =
  storage :: "storage option"
  uploadSemaphore :: semaphore
  downloadSemaphore :: semaphore
  listSemaphore :: semaphore

definition NewServer :: "storage \<Rightarrow> server" where
  "NewServer st =
     \<lparr>storage = Some st,
      uploadSemaphore = make_chan MaxUploadConcurrency,
      downloadSemaphore = make_chan MaxDownloadConcurrency,
      listSemaphore = make_chan MaxListConcurrency\<rparr>"

text \<open>The composite literal \<^verbatim>\<open>server{}\<close>: every field has its zero value.\<close>

definition zero_server :: server where
  "zero_server =
     \<lparr>storage = None, uploadSemaphore = None, downloadSemaphore = None, listSemaphore = None\<rparr>"

text \<open>
  \<^verbatim>\<open>Serve\<close> listens on port 9000, registers \<^verbatim>\<open>&server{}\<close> with a new gRPC server and
  serves until that server returns. The outcomes of \<^verbatim>\<open>net.Listen\<close> and of
  \<^verbatim>\<open>grpcServer.Serve\<close> are inputs (the message of the error, if any). The first
  component of the result is the object registered with the gRPC server, the one whose
  methods are called for every request while it serves; the second is the error
  \<^verbatim>\<open>Serve\<close> returns. The receiver \<open>s\<close> is not used.
\<close>

definition Serve :: "string option \<Rightarrow> string option \<Rightarrow> server \<Rightarrow> server option \<times> failure option" where
  "Serve listen_err serve_err s =
     (case listen_err of
        Some msg \<Rightarrow> (None, Some (OSError (''could not listen on port 9000: '' @ msg)))
      | None \<Rightarrow>
          (Some zero_server,
           (case serve_err of
              Some msg \<Rightarrow> Some (OSError (''failed to serve: '' @ msg))
            | None \<Rightarrow> None)))"

text \<open>The calls a handler makes on the storage interface, in order.\<close>

datatype storage_call =
    SaveFileCall string bytes
  | GetFileCall string
  | ListFilesCall int32 int32

definition nil_dereference :: failure where
  "nil_dereference = Panic ''invalid memory address or nil pointer dereference''"

subsection \<open>\<^verbatim>\<open>UploadFile\<close>\<close>

text \<open>
  The request stream as the handler meets it: the messages still to come and what
  \<^verbatim>\<open>Recv\<close> returns after the last one (\<^verbatim>\<open>io.EOF\<close> or a transport error).
\<close>

datatype stream_end = EndOfStream | Broken string

type_synonym upload_stream = "UploadFileRequest list \<times> stream_end"

fun Recv :: "upload_stream \<Rightarrow> (failure + UploadFileRequest) \<times> upload_stream" where
  "Recv (m # ms, e) = (Inr m, (ms, e))"
| "Recv ([], EndOfStream) = (Inl EOF, ([], EndOfStream))"
| "Recv ([], Broken msg) = (Inl (OSError msg), ([], Broken msg))"

text \<open>The loop that appends the chunk of every further message until \<^verbatim>\<open>io.EOF\<close>.\<close>

fun recv_chunks :: "bytes \<Rightarrow> upload_stream \<Rightarrow> (failure + bytes) \<times> upload_stream" where
  "recv_chunks data (req # ms, e) = recv_chunks (data @ GetChunkData req) (ms, e)"
| "recv_chunks data ([], EndOfStream) = (Inr data, ([], EndOfStream))"
| "recv_chunks data ([], Broken msg) = (Inl (OSError msg), ([], Broken msg))"

text \<open>
  What the handler reads from its environment: the environment of \<^verbatim>\<open>SaveFile\<close>, the
  clock for the response and the outcome of \<^verbatim>\<open>SendAndClose\<close>.
\<close>

record upload_env =
  save :: save_env
  resp_clock_Unix :: int
  SendAndClose_err :: "failure option"

record upload_outcome =
  up_result :: "failure + UploadFileResponse"
  up_server :: server
  up_disk :: disk
  up_calls :: "storage_call list"
  up_unread :: upload_stream

text \<open>The handler after admission, up to its return.\<close>

definition UploadFile_body ::
  "upload_env \<Rightarrow> storage option \<Rightarrow> disk \<Rightarrow> upload_stream \<Rightarrow>
   (failure + UploadFileResponse) \<times> storage option \<times> disk \<times> storage_call list \<times> upload_stream" where
  "UploadFile_body env sto d stream =
     (case Recv stream of
        (Inl err, s1) \<Rightarrow> (Inl err, sto, d, [], s1)
      | (Inr req, s1) \<Rightarrow>
          (case GetInfo req of
             None \<Rightarrow>
               (Inl (Status InvalidArgument ''First message must contain file info''),
                sto, d, [], s1)
           | Some fileInfo \<Rightarrow>
               (case recv_chunks [] s1 of
                  (Inl err, s2) \<Rightarrow> (Inl err, sto, d, [], s2)
                | (Inr data, s2) \<Rightarrow>
                    (case sto of
                       None \<Rightarrow> (Inl nil_dereference, sto, d, [], s2)
                     | Some st \<Rightarrow>
                         (case SaveFile (save env) st d (InfoFilename fileInfo) data of
                            (Inl err, st', d') \<Rightarrow>
                              (Inl (Status Internal ''Failed to save file''), Some st', d',
                               [SaveFileCall (InfoFilename fileInfo) data], s2)
                          | (Inr fid, st', d') \<Rightarrow>
                              (case SendAndClose_err env of
                                 Some err \<Rightarrow>
                                   (Inl err, Some st', d',
                                    [SaveFileCall (InfoFilename fileInfo) data], s2)
                               | None \<Rightarrow>
                                   (Inr \<lparr>RespId = fid, RespFilename = InfoFilename fileInfo,
                                         RespSize = int (length data),
                                         RespCreatedAt = resp_clock_Unix env\<rparr>,
                                    Some st', d',
                                    [SaveFileCall (InfoFilename fileInfo) data], s2)))))))"

text \<open>The whole handler: the admission \<^verbatim>\<open>select\<close>, the body, the deferred receive.\<close>

definition UploadFile :: "upload_env \<Rightarrow> server \<Rightarrow> disk \<Rightarrow> upload_stream \<Rightarrow> upload_outcome" where
  "UploadFile env s d stream =
     (case try_send (uploadSemaphore s) of
        None \<Rightarrow>
          \<lparr>up_result = Inl (Status ResourceExhausted ''Max concurrent uploads reached''),
           up_server = s, up_disk = d, up_calls = [], up_unread = stream\<rparr>
      | Some sem \<Rightarrow>
          (case UploadFile_body env (storage s) d stream of
             (r, sto, d', calls, rest) \<Rightarrow>
               (case chan_recv sem of
                  None \<Rightarrow>
                    \<lparr>up_result = Inl Blocked,
                     up_server = s\<lparr>storage := sto, uploadSemaphore := sem\<rparr>,
                     up_disk = d', up_calls = calls, up_unread = rest\<rparr>
                | Some sem' \<Rightarrow>
                    \<lparr>up_result = r,
                     up_server = s\<lparr>storage := sto, uploadSemaphore := sem'\<rparr>,
                     up_disk = d', up_calls = calls, up_unread = rest\<rparr>)))"

subsection \<open>\<^verbatim>\<open>DownloadFile\<close>\<close>

definition chunkSize :: nat where
  "chunkSize = 1024 * 1024"

text \<open>
  The loop over the blob. Whether the \<open>k\<close>-th call of \<^verbatim>\<open>stream.Send\<close> (counted from 0)
  fails is decided by the transport, so it is an input: \<open>net k\<close> is the error, if any.
  \<open>sent\<close> collects the chunks whose \<^verbatim>\<open>Send\<close> returned nil, in the order of the calls.
  \<^verbatim>\<open>data[i:end]\<close> is \<open>take (end - i) (drop i data)\<close>.
\<close>

function send_chunks ::
  "(nat \<Rightarrow> failure option) \<Rightarrow> bytes \<Rightarrow> nat \<Rightarrow> bytes list \<Rightarrow> failure option \<times> bytes list" where
  "send_chunks net data i sent =
     (if i < length data then
        (let end' = (if i + chunkSize > length data then length data else i + chunkSize);
             chunk = take (end' - i) (drop i data)
         in case net (length sent) of
              Some err \<Rightarrow> (Some err, sent)
            | None \<Rightarrow> send_chunks net data (i + chunkSize) (sent @ [chunk]))
      else (None, sent))"
  by pat_completeness auto
termination
  by (relation "measure (\<lambda>(net, data, i, sent). length data - i)") (auto simp: chunkSize_def)

declare send_chunks.simps [simp del]

record download_outcome =
  down_result :: "failure option"
  down_sent :: "bytes list"
  down_server :: server
  down_calls :: "storage_call list"

definition DownloadFile_body ::
  "(nat \<Rightarrow> failure option) \<Rightarrow> storage option \<Rightarrow> disk \<Rightarrow> string \<Rightarrow>
   failure option \<times> bytes list \<times> storage_call list" where
  "DownloadFile_body net sto d fid =
     (case sto of
        None \<Rightarrow> (Some nil_dereference, [], [])
      | Some st \<Rightarrow>
          (case GetFile st d fid of
             Inl err \<Rightarrow> (Some (Status NotFound ''File not found''), [], [GetFileCall fid])
           | Inr data \<Rightarrow>
               (case send_chunks net data 0 [] of
                  (r, sent) \<Rightarrow> (r, sent, [GetFileCall fid]))))"

definition DownloadFile ::
  "(nat \<Rightarrow> failure option) \<Rightarrow> server \<Rightarrow> disk \<Rightarrow> string \<Rightarrow> download_outcome" where
  "DownloadFile net s d fid =
     (case try_send (downloadSemaphore s) of
        None \<Rightarrow>
          \<lparr>down_result = Some (Status ResourceExhausted ''Max concurrent downloads reached''),
           down_sent = [], down_server = s, down_calls = []\<rparr>
      | Some sem \<Rightarrow>
          (case DownloadFile_body net (storage s) d fid of
             (r, sent, calls) \<Rightarrow>
               (case chan_recv sem of
                  None \<Rightarrow>
                    \<lparr>down_result = Some Blocked, down_sent = sent,
                     down_server = s\<lparr>downloadSemaphore := sem\<rparr>, down_calls = calls\<rparr>
                | Some sem' \<Rightarrow>
                    \<lparr>down_result = r, down_sent = sent,
                     down_server = s\<lparr>downloadSemaphore := sem'\<rparr>, down_calls = calls\<rparr>)))"

subsection \<open>\<^verbatim>\<open>ListFiles\<close> of the server\<close>

record list_outcome =
  list_result :: "failure + ListFilesResponse"
  list_server :: server
  list_calls :: "storage_call list"

text \<open>
  A panic of the storage engine is not an error value: it passes the \<^verbatim>\<open>err != nil\<close>
  test by unwinding the handler (the deferred receive still runs).
\<close>

definition ListFiles_body ::
  "string list \<Rightarrow> storage option \<Rightarrow> int32 \<Rightarrow> int32 \<Rightarrow>
   (failure + ListFilesResponse) \<times> storage_call list" where
  "ListFiles_body ks sto pageSize pageNumber =
     (case sto of
        None \<Rightarrow> (Inl nil_dereference, [])
      | Some st \<Rightarrow>
          (case ListFiles st ks pageSize pageNumber of
             Inl (Panic msg) \<Rightarrow> (Inl (Panic msg), [ListFilesCall pageSize pageNumber])
           | Inl err \<Rightarrow>
               (Inl (Status Internal ''Failed to list files''),
                [ListFilesCall pageSize pageNumber])
           | Inr (fs, totalCount) \<Rightarrow>
               (Inr \<lparr>Files = fs, TotalCount = totalCount\<rparr>,
                [ListFilesCall pageSize pageNumber])))"

definition server_ListFiles ::
  "string list \<Rightarrow> server \<Rightarrow> int32 \<Rightarrow> int32 \<Rightarrow> list_outcome" where
  "server_ListFiles ks s pageSize pageNumber =
     (case try_send (listSemaphore s) of
        None \<Rightarrow>
          \<lparr>list_result = Inl (Status ResourceExhausted ''Max concurrent list requests reached''),
           list_server = s, list_calls = []\<rparr>
      | Some sem \<Rightarrow>
          (case ListFiles_body ks (storage s) pageSize pageNumber of
             (r, calls) \<Rightarrow>
               (case chan_recv sem of
                  None \<Rightarrow>
                    \<lparr>list_result = Inl Blocked,
                     list_server = s\<lparr>listSemaphore := sem\<rparr>, list_calls = calls\<rparr>
                | Some sem' \<Rightarrow>
                    \<lparr>list_result = r,
                     list_server = s\<lparr>listSemaphore := sem'\<rparr>, list_calls = calls\<rparr>)))"

subsection \<open>Calls in flight\<close>

text \<open>
  Calls of the three kinds overlap in time. For admission all that matters of a call is
  its \<^verbatim>\<open>select\<close> (when it arrives) and its deferred receive (when it terminates, by
  whatever path); both are single channel operations. An execution is therefore a
  sequence of arrivals and terminations in any interleaving. The state is the server and,
  for each kind, the number of admitted calls that have not terminated yet.
\<close>

datatype rpc = Upload | Download | Listing

fun capacity :: "rpc \<Rightarrow> nat" where
  "capacity Upload = MaxUploadConcurrency"
| "capacity Download = MaxDownloadConcurrency"
| "capacity Listing = MaxListConcurrency"

fun semaphore_of :: "rpc \<Rightarrow> server \<Rightarrow> semaphore" where
  "semaphore_of Upload s = uploadSemaphore s"
| "semaphore_of Download s = downloadSemaphore s"
| "semaphore_of Listing s = listSemaphore s"

fun set_semaphore :: "rpc \<Rightarrow> semaphore \<Rightarrow> server \<Rightarrow> server" where
  "set_semaphore Upload sem s = s\<lparr>uploadSemaphore := sem\<rparr>"
| "set_semaphore Download sem s = s\<lparr>downloadSemaphore := sem\<rparr>"
| "set_semaphore Listing sem s = s\<lparr>listSemaphore := sem\<rparr>"

datatype event = Arrive rpc | Finish rpc

datatype admission = Admitted | Rejected

type_synonym flight = "server \<times> (rpc \<Rightarrow> nat)"

text \<open>
  An arrival runs the \<^verbatim>\<open>select\<close>; its answer is immediate in both branches. A
  termination runs the deferred receive of one admitted call; with no admitted call of
  that kind in flight there is nothing to terminate.
\<close>

fun step :: "event \<Rightarrow> flight \<Rightarrow> admission option \<times> flight" where
  "step (Arrive k) (s, n) =
     (case try_send (semaphore_of k s) of
        None \<Rightarrow> (Some Rejected, (s, n))
      | Some sem \<Rightarrow> (Some Admitted, (set_semaphore k sem s, n(k := n k + 1))))"
| "step (Finish k) (s, n) =
     (if n k = 0 then (None, (s, n))
      else case chan_recv (semaphore_of k s) of
             None \<Rightarrow> (None, (s, n))
           | Some sem \<Rightarrow> (None, (set_semaphore k sem s, n(k := n k - 1))))"

fun run :: "event list \<Rightarrow> flight \<Rightarrow> admission list \<times> flight" where
  "run [] w = ([], w)"
| "run (e # es) w =
     (case step e w of
        (a, w') \<Rightarrow>
          (case run es w' of
             (as, w'') \<Rightarrow> ((case a of None \<Rightarrow> as | Some x \<Rightarrow> x # as), w'')))"

definition idle :: "rpc \<Rightarrow> nat" where
  "idle k = 0"

text \<open>The state an execution \<open>es\<close> leaves, from a server just built on the storage \<open>st\<close>.\<close>

definition started :: "storage \<Rightarrow> event list \<Rightarrow> flight" where
  "started st es = snd (run es (NewServer st, idle))"

text \<open>
  What holds of the three semaphores during every execution: each has the capacity of
  its kind and holds one element for each admitted call of that kind in flight.
\<close>

definition pool_ok :: "flight \<Rightarrow> bool" where
  "pool_ok w \<longleftrightarrow>
     (\<forall>k. semaphore_of k (fst w) = Some \<lparr>chan_cap = capacity k, chan_len = snd w k\<rparr> \<and>
          snd w k \<le> capacity k)"

section \<open>Identifiers: the decimal rendering is injective\<close>

lemma distinct_digits: "distinct digits"
  by (simp add: digits_def)

lemma length_digits: "length digits = 10"
  by (simp add: digits_def)

lemma digit_char_inj:
  assumes "a < 10" and "b < 10" and eq: "digit_char a = digit_char b"
  shows "a = b"
proof -
  from assms have "digits ! a = digits ! b" "a < length digits" "b < length digits"
    by (simp_all only: digit_char_def length_digits)
  with distinct_digits show ?thesis
    by (simp only: nth_eq_iff_index_eq)
qed

lemma digit_char_not_minus:
  assumes "d < 10"
  shows "digit_char d \<noteq> CHR ''-''"
proof -
  from assms have "digits ! d \<in> set digits"
    by (simp only: nth_mem length_digits)
  moreover have "CHR ''-'' \<notin> set digits"
    by (simp add: digits_def)
  ultimately show ?thesis
    by (auto simp only: digit_char_def)
qed

lemma decimal_small: "n < 10 \<Longrightarrow> decimal n = [digit_char n]"
  by (subst decimal.simps) simp

lemma decimal_large: "\<not> n < 10 \<Longrightarrow> decimal n = decimal (n div 10) @ [digit_char (n mod 10)]"
  by (subst decimal.simps) simp

lemma decimal_not_Nil: "decimal n \<noteq> []"
  by (subst decimal.simps) simp

lemma decimal_length_large:
  assumes "\<not> n < 10"
  shows "2 \<le> length (decimal n)"
proof -
  have "length (decimal n) = length (decimal (n div 10)) + 1"
    by (simp only: decimal_large [OF assms] length_append) simp
  moreover have "1 \<le> length (decimal (n div 10))"
    using decimal_not_Nil [of "n div 10"] by (simp add: Suc_le_eq)
  ultimately show ?thesis by linarith
qed

lemma decimal_inj: "decimal n = decimal m \<Longrightarrow> n = m"
proof (induction n arbitrary: m rule: decimal.induct)
  case (1 n)
  show ?case
  proof (cases "n < 10")
    case nsmall: True
    then have dn: "decimal n = [digit_char n]" by (rule decimal_small)
    show ?thesis
    proof (cases "m < 10")
      case True
      then have "decimal m = [digit_char m]" by (rule decimal_small)
      with dn "1.prems" have "digit_char n = digit_char m" by simp
      with nsmall True show ?thesis by (rule digit_char_inj)
    next
      case False
      from dn "1.prems" have "length (decimal m) = 1" by simp
      with decimal_length_large [OF False] show ?thesis by simp
    qed
  next
    case nlarge: False
    then have dn: "decimal n = decimal (n div 10) @ [digit_char (n mod 10)]"
      by (rule decimal_large)
    show ?thesis
    proof (cases "m < 10")
      case True
      then have "decimal m = [digit_char m]" by (rule decimal_small)
      with "1.prems" have "length (decimal n) = 1" by simp
      with decimal_length_large [OF nlarge] show ?thesis by simp
    next
      case mlarge: False
      then have dm: "decimal m = decimal (m div 10) @ [digit_char (m mod 10)]"
        by (rule decimal_large)
      from "1.prems" have "decimal (n div 10) @ [digit_char (n mod 10)] =
          decimal (m div 10) @ [digit_char (m mod 10)]"
        by (simp only: dn [symmetric] dm [symmetric])
      then have eq: "decimal (n div 10) = decimal (m div 10)"
        and dg: "digit_char (n mod 10) = digit_char (m mod 10)"
        by simp_all
      from "1.IH" [OF nlarge eq] have q: "n div 10 = m div 10" .
      have "n mod 10 < 10" "m mod 10 < 10" by simp_all
      then have r: "n mod 10 = m mod 10" using dg by (rule digit_char_inj)
      have "n = 10 * (n div 10) + n mod 10" by simp
      also have "\<dots> = 10 * (m div 10) + m mod 10" by (simp only: q r)
      also have "\<dots> = m" by simp
      finally show ?thesis .
    qed
  qed
qed

lemma hd_decimal_not_minus: "hd (decimal n) \<noteq> CHR ''-''"
proof (induction n rule: decimal.induct)
  case (1 n)
  show ?case
  proof (cases "n < 10")
    case True
    then show ?thesis by (simp add: decimal_small [OF True] digit_char_not_minus)
  next
    case False
    from "1.IH" [OF False] decimal_not_Nil [of "n div 10"] show ?thesis
      by (simp only: decimal_large [OF False]) simp
  qed
qed

lemma Sprintf_d_inj: "Sprintf_d a = Sprintf_d b \<Longrightarrow> a = b"
proof -
  assume eq: "Sprintf_d a = Sprintf_d b"
  have neg_pos: False if "x < 0" "\<not> y < 0" "Sprintf_d x = Sprintf_d y" for x y
  proof -
    from that have "CHR ''-'' # decimal (nat (- x)) = decimal (nat y)"
      by (simp add: Sprintf_d_def)
    then have "hd (decimal (nat y)) = CHR ''-''"
      by (metis list.sel(1))
    with hd_decimal_not_minus show False by blast
  qed
  show ?thesis
  proof (cases "a < 0")
    case True
    show ?thesis
    proof (cases "b < 0")
      case True
      with \<open>a < 0\<close> eq have "decimal (nat (- a)) = decimal (nat (- b))"
        by (simp add: Sprintf_d_def)
      then have "nat (- a) = nat (- b)"
        by (rule decimal_inj)
      with True \<open>a < 0\<close> show ?thesis by simp
    next
      case False
      with neg_pos [OF True False eq] show ?thesis by blast
    qed
  next
    case False
    show ?thesis
    proof (cases "b < 0")
      case True
      with neg_pos [OF True False] eq show ?thesis by simp
    next
      case bpos: False
      with False eq have "decimal (nat a) = decimal (nat b)"
        by (simp add: Sprintf_d_def)
      then have "nat a = nat b"
        by (rule decimal_inj)
      with False bpos show ?thesis by simp
    qed
  qed
qed


text \<open>Evaluation of the rendering on a numeral goes through these two equations.\<close>

lemmas decimal_eval = Sprintf_d_def decimal_small decimal_large digit_char_def digits_def

section \<open>\<^verbatim>\<open>SaveFile\<close> by the outcome of the write\<close>

lemma SaveFile_ok:
  "write_result env = WriteOk \<Longrightarrow>
   SaveFile env s d fname data =
     (Inr (Sprintf_d (clock_UnixNano env)),
      s\<lparr>files := (files s)(Sprintf_d (clock_UnixNano env) \<mapsto>
          \<lparr>FileId = Sprintf_d (clock_UnixNano env), Filename = fname, Size = int (length data),
           CreatedAt = clock_Unix env, UpdatedAt = clock_Unix env\<rparr>)\<rparr>,
      d(filepath_Join (directory s) (Sprintf_d (clock_UnixNano env)) \<mapsto> data))"
  by (simp add: SaveFile_def Let_def)

lemma SaveFile_open_failed:
  "write_result env = OpenFailed e \<Longrightarrow> SaveFile env s d fname data = (Inl (OSError e), s, d)"
  by (simp add: SaveFile_def Let_def)

lemma SaveFile_write_failed:
  "write_result env = WriteFailed n e \<Longrightarrow>
   SaveFile env s d fname data =
     (Inl (OSError e), s, d(filepath_Join (directory s) (Sprintf_d (clock_UnixNano env)) \<mapsto> take n data))"
  by (simp add: SaveFile_def Let_def)

lemma SaveFile_Inr_iff:
  "fst (SaveFile env s d fname data) = Inr fid \<longleftrightarrow>
     write_result env = WriteOk \<and> fid = Sprintf_d (clock_UnixNano env)"
  by (cases "write_result env") (auto simp: SaveFile_ok SaveFile_open_failed SaveFile_write_failed)

lemma SaveFile_error:
  "fst (SaveFile env s d fname data) = Inl err \<longleftrightarrow>
     (\<exists>e. err = OSError e \<and>
        (write_result env = OpenFailed e \<or> (\<exists>n. write_result env = WriteFailed n e)))"
  by (cases "write_result env")
    (auto simp: SaveFile_ok SaveFile_open_failed SaveFile_write_failed)

section \<open>Round trip through the storage engine\<close>

text \<open>
  Claim C1. For every filename and byte sequence, in every state of the storage engine
  and of the disk: if \<^verbatim>\<open>SaveFile\<close> succeeds and returns an identifier, then \<^verbatim>\<open>GetFile\<close>
  of that identifier, on the state \<^verbatim>\<open>SaveFile\<close> leaves, succeeds and returns exactly the
  bytes that were saved.
\<close>

theorem SaveFile_GetFile_round_trip:
  "SaveFile env s d fname data = (Inr fid, s', d') \<Longrightarrow> GetFile s' d' fid = Inr data"
proof -
  assume a: "SaveFile env s d fname data = (Inr fid, s', d')"
  then have "fst (SaveFile env s d fname data) = Inr fid" by simp
  then have w: "write_result env = WriteOk" and f: "fid = Sprintf_d (clock_UnixNano env)"
    by (simp_all add: SaveFile_Inr_iff)
  from a SaveFile_ok [OF w, of s d fname data]
  have "directory s' = directory s" and "d' = d(filepath_Join (directory s) fid \<mapsto> data)"
    using f by auto
  then show ?thesis by (simp add: GetFile_def ReadFile_def)
qed

text \<open>
  The scenario of the specification: \<^verbatim>\<open>SaveFile("a.txt", "hello")\<close> on a fresh storage
  in \<^verbatim>\<open>./storage\<close>, with the clock at 1730000000123456789 ns.
\<close>

theorem SaveFile_GetFile_round_trip_witness:
  "SaveFile \<lparr>clock_UnixNano = 1730000000123456789, clock_Unix = 1730000000,
             write_result = WriteOk\<rparr>
     (NewStorage ''./storage'') Map.empty ''a.txt'' [104, 101, 108, 108, 111] =
   (Inr ''1730000000123456789'',
    \<lparr>directory = ''./storage'',
     files = [''1730000000123456789'' \<mapsto>
       \<lparr>FileId = ''1730000000123456789'', Filename = ''a.txt'', Size = 5,
        CreatedAt = 1730000000, UpdatedAt = 1730000000\<rparr>]\<rparr>,
    [''./storage/1730000000123456789'' \<mapsto> [104, 101, 108, 108, 111]]) \<and>
   GetFile
     \<lparr>directory = ''./storage'',
      files = [''1730000000123456789'' \<mapsto>
        \<lparr>FileId = ''1730000000123456789'', Filename = ''a.txt'', Size = 5,
         CreatedAt = 1730000000, UpdatedAt = 1730000000\<rparr>]\<rparr>
     [''./storage/1730000000123456789'' \<mapsto> [104, 101, 108, 108, 111]]
     ''1730000000123456789'' = Inr [104, 101, 108, 108, 111]"
proof -
  have e: "SaveFile \<lparr>clock_UnixNano = 1730000000123456789, clock_Unix = 1730000000,
             write_result = WriteOk\<rparr>
     (NewStorage ''./storage'') Map.empty ''a.txt'' [104, 101, 108, 108, 111] =
   (Inr ''1730000000123456789'',
    \<lparr>directory = ''./storage'',
     files = [''1730000000123456789'' \<mapsto>
       \<lparr>FileId = ''1730000000123456789'', Filename = ''a.txt'', Size = 5,
        CreatedAt = 1730000000, UpdatedAt = 1730000000\<rparr>]\<rparr>,
    [''./storage/1730000000123456789'' \<mapsto> [104, 101, 108, 108, 111]])"
    by (simp add: SaveFile_ok NewStorage_def filepath_Join_def decimal_eval)
  from SaveFile_GetFile_round_trip [OF e] e show ?thesis by simp
qed

section \<open>A failed write leaves the catalog alone\<close>

lemma Sprintf_d_not_Nil: "Sprintf_d n \<noteq> []"
  by (simp add: Sprintf_d_def decimal_not_Nil)

lemma Sprintf_d_eq_iff: "Sprintf_d a = Sprintf_d b \<longleftrightarrow> a = b"
  by (auto dest: Sprintf_d_inj)

lemma filepath_Join_inj:
  "a \<noteq> [] \<Longrightarrow> b \<noteq> [] \<Longrightarrow> filepath_Join dir a = filepath_Join dir b \<longleftrightarrow> a = b"
  by (simp add: filepath_Join_def)

text \<open>
  Claim C6. For every filename and data: if the write of the blob inside \<^verbatim>\<open>SaveFile\<close>
  fails, \<^verbatim>\<open>SaveFile\<close> returns the I/O error of the write and the storage struct, hence
  the catalog, is exactly as before the call: no entry was inserted. The disk may have
  changed, but only at the path of the blob (the orphan).
\<close>

theorem SaveFile_write_failure_keeps_catalog:
  assumes "write_result env \<noteq> WriteOk"
  shows "\<exists>e d'. SaveFile env s d fname data = (Inl (OSError e), s, d') \<and>
           (write_result env = OpenFailed e \<or> (\<exists>n. write_result env = WriteFailed n e)) \<and>
           (\<forall>p. p \<noteq> filepath_Join (directory s) (Sprintf_d (clock_UnixNano env)) \<longrightarrow> d' p = d p)"
proof (cases "write_result env")
  case WriteOk
  with assms show ?thesis by simp
next
  case (OpenFailed e)
  then show ?thesis by (simp add: SaveFile_open_failed)
next
  case (WriteFailed n e)
  then show ?thesis by (simp add: SaveFile_write_failed)
qed

text \<open>
  A write that fails after three bytes: the error is returned, the catalog is still the
  empty one, and three bytes of an orphan blob are on the disk.
\<close>

theorem SaveFile_write_failure_keeps_catalog_witness:
  "write_result \<lparr>clock_UnixNano = 1730000000123456789, clock_Unix = 1730000000,
       write_result = WriteFailed 3 ''no space left on device''\<rparr> \<noteq> WriteOk \<and>
   (\<exists>e d'. SaveFile \<lparr>clock_UnixNano = 1730000000123456789, clock_Unix = 1730000000,
       write_result = WriteFailed 3 ''no space left on device''\<rparr>
       (NewStorage ''./storage'') Map.empty ''a.txt'' [104, 101, 108, 108, 111] =
         (Inl (OSError e), NewStorage ''./storage'', d')) \<and>
   SaveFile \<lparr>clock_UnixNano = 1730000000123456789, clock_Unix = 1730000000,
       write_result = WriteFailed 3 ''no space left on device''\<rparr>
       (NewStorage ''./storage'') Map.empty ''a.txt'' [104, 101, 108, 108, 111] =
     (Inl (OSError ''no space left on device''), NewStorage ''./storage'',
      [''./storage/1730000000123456789'' \<mapsto> [104, 101, 108]])"
proof -
  have h: "write_result \<lparr>clock_UnixNano = 1730000000123456789, clock_Unix = 1730000000,
       write_result = WriteFailed 3 ''no space left on device''\<rparr> \<noteq> WriteOk"
    by simp
  have e: "SaveFile \<lparr>clock_UnixNano = 1730000000123456789, clock_Unix = 1730000000,
       write_result = WriteFailed 3 ''no space left on device''\<rparr>
       (NewStorage ''./storage'') Map.empty ''a.txt'' [104, 101, 108, 108, 111] =
     (Inl (OSError ''no space left on device''), NewStorage ''./storage'',
      [''./storage/1730000000123456789'' \<mapsto> [104, 101, 108]])"
    by (simp add: SaveFile_write_failed NewStorage_def filepath_Join_def decimal_eval)
  from SaveFile_write_failure_keeps_catalog [OF h, of "NewStorage ''./storage''" Map.empty
      "''a.txt''" "[104, 101, 108, 108, 111]"]
  have "\<exists>e d'. SaveFile \<lparr>clock_UnixNano = 1730000000123456789, clock_Unix = 1730000000,
       write_result = WriteFailed 3 ''no space left on device''\<rparr>
       (NewStorage ''./storage'') Map.empty ''a.txt'' [104, 101, 108, 108, 111] =
         (Inl (OSError e), NewStorage ''./storage'', d')"
    by blast
  with h e show ?thesis by blast
qed

section \<open>Identifiers and the clock\<close>

text \<open>
  The identifier is the decimal rendering of one reading of the clock and nothing else.
  Two calls that read the same nanosecond value return the same identifier; the second
  then writes the same blob path. The clock is the only source: nothing in \<^verbatim>\<open>SaveFile\<close>
  compares the identifier with the catalog or with an earlier one.
\<close>

theorem SaveFile_same_instant_same_id:
  "SaveFile \<lparr>clock_UnixNano = 1730000000123456789, clock_Unix = 1730000000,
             write_result = WriteOk\<rparr>
     (NewStorage ''./storage'') Map.empty ''a.txt'' [1] =
   (Inr ''1730000000123456789'',
    \<lparr>directory = ''./storage'',
     files = [''1730000000123456789'' \<mapsto>
       \<lparr>FileId = ''1730000000123456789'', Filename = ''a.txt'', Size = 1,
        CreatedAt = 1730000000, UpdatedAt = 1730000000\<rparr>]\<rparr>,
    [''./storage/1730000000123456789'' \<mapsto> [1]]) \<and>
   SaveFile \<lparr>clock_UnixNano = 1730000000123456789, clock_Unix = 1730000000,
             write_result = WriteOk\<rparr>
     \<lparr>directory = ''./storage'',
      files = [''1730000000123456789'' \<mapsto>
        \<lparr>FileId = ''1730000000123456789'', Filename = ''a.txt'', Size = 1,
         CreatedAt = 1730000000, UpdatedAt = 1730000000\<rparr>]\<rparr>
     [''./storage/1730000000123456789'' \<mapsto> [1]] ''b.txt'' [2, 3] =
   (Inr ''1730000000123456789'',
    \<lparr>directory = ''./storage'',
     files = [''1730000000123456789'' \<mapsto>
       \<lparr>FileId = ''1730000000123456789'', Filename = ''b.txt'', Size = 2,
        CreatedAt = 1730000000, UpdatedAt = 1730000000\<rparr>]\<rparr>,
    [''./storage/1730000000123456789'' \<mapsto> [2, 3]])"
  by (simp add: SaveFile_ok NewStorage_def filepath_Join_def decimal_eval)

text \<open>
  Claim C7, as amended. For any two successful \<^verbatim>\<open>SaveFile\<close> calls, in any states: the
  returned identifiers are equal exactly when the two calls read the same value of
  \<^verbatim>\<open>UnixNano\<close>, and so are the blob paths they build in a directory. Hence calls with
  different clock readings never share an identifier or a blob path.
\<close>

theorem SaveFile_ids_differ_iff_clocks_differ:
  assumes "SaveFile env1 s1 d1 fname1 data1 = (Inr fid1, s1', d1')"
    and "SaveFile env2 s2 d2 fname2 data2 = (Inr fid2, s2', d2')"
  shows "(fid1 = fid2 \<longleftrightarrow> clock_UnixNano env1 = clock_UnixNano env2) \<and>
         (filepath_Join dir fid1 = filepath_Join dir fid2 \<longleftrightarrow>
            clock_UnixNano env1 = clock_UnixNano env2)"
proof -
  from assms(1) have "fst (SaveFile env1 s1 d1 fname1 data1) = Inr fid1" by simp
  then have f1: "fid1 = Sprintf_d (clock_UnixNano env1)" by (simp add: SaveFile_Inr_iff)
  from assms(2) have "fst (SaveFile env2 s2 d2 fname2 data2) = Inr fid2" by simp
  then have f2: "fid2 = Sprintf_d (clock_UnixNano env2)" by (simp add: SaveFile_Inr_iff)
  have ids: "fid1 = fid2 \<longleftrightarrow> clock_UnixNano env1 = clock_UnixNano env2"
    unfolding f1 f2 by (rule Sprintf_d_eq_iff)
  have "filepath_Join dir fid1 = filepath_Join dir fid2 \<longleftrightarrow> fid1 = fid2"
    unfolding f1 f2 by (rule filepath_Join_inj) (rule Sprintf_d_not_Nil)+
  with ids show ?thesis by simp
qed


theorem SaveFile_ids_differ_iff_clocks_differ_witness:
  "SaveFile \<lparr>clock_UnixNano = 1730000000123456789, clock_Unix = 1730000000,
             write_result = WriteOk\<rparr>
     (NewStorage ''./storage'') Map.empty ''a.txt'' [1] =
   (Inr ''1730000000123456789'',
    \<lparr>directory = ''./storage'',
     files = [''1730000000123456789'' \<mapsto>
       \<lparr>FileId = ''1730000000123456789'', Filename = ''a.txt'', Size = 1,
        CreatedAt = 1730000000, UpdatedAt = 1730000000\<rparr>]\<rparr>,
    [''./storage/1730000000123456789'' \<mapsto> [1]]) \<and>
   fst (SaveFile \<lparr>clock_UnixNano = 1730000000123456790, clock_Unix = 1730000000,
             write_result = WriteOk\<rparr>
     \<lparr>directory = ''./storage'',
      files = [''1730000000123456789'' \<mapsto>
        \<lparr>FileId = ''1730000000123456789'', Filename = ''a.txt'', Size = 1,
         CreatedAt = 1730000000, UpdatedAt = 1730000000\<rparr>]\<rparr>
     [''./storage/1730000000123456789'' \<mapsto> [1]] ''b.txt'' [2, 3]) =
     Inr ''1730000000123456790'' \<and>
   ''1730000000123456789'' \<noteq> ''1730000000123456790'' \<and>
   filepath_Join ''./storage'' ''1730000000123456789'' \<noteq>
     filepath_Join ''./storage'' ''1730000000123456790''"
proof -
  let ?S1 = "\<lparr>directory = ''./storage'',
     files = [''1730000000123456789'' \<mapsto>
       \<lparr>FileId = ''1730000000123456789'', Filename = ''a.txt'', Size = 1,
        CreatedAt = 1730000000, UpdatedAt = 1730000000\<rparr>]\<rparr>"
  let ?D1 = "[''./storage/1730000000123456789'' \<mapsto> [1::8 word]]"
  let ?E2 = "\<lparr>clock_UnixNano = 1730000000123456790, clock_Unix = 1730000000,
             write_result = WriteOk\<rparr>"
  have e1: "SaveFile \<lparr>clock_UnixNano = 1730000000123456789, clock_Unix = 1730000000,
             write_result = WriteOk\<rparr>
     (NewStorage ''./storage'') Map.empty ''a.txt'' [1] =
     (Inr ''1730000000123456789'', ?S1, ?D1)"
    by (simp add: SaveFile_ok NewStorage_def filepath_Join_def decimal_eval)
  have f2: "fst (SaveFile ?E2 ?S1 ?D1 ''b.txt'' [2, 3]) = Inr ''1730000000123456790''"
    by (simp add: SaveFile_ok decimal_eval)
  then have e2: "SaveFile ?E2 ?S1 ?D1 ''b.txt'' [2, 3] =
      (Inr ''1730000000123456790'', fst (snd (SaveFile ?E2 ?S1 ?D1 ''b.txt'' [2, 3])),
       snd (snd (SaveFile ?E2 ?S1 ?D1 ''b.txt'' [2, 3])))"
    by (simp add: prod_eq_iff)
  from SaveFile_ids_differ_iff_clocks_differ [OF e1 e2, of "''./storage''"]
  have "''1730000000123456789'' \<noteq> ''1730000000123456790'' \<and>
   filepath_Join ''./storage'' ''1730000000123456789'' \<noteq>
     filepath_Join ''./storage'' ''1730000000123456790''"
    by simp
  with e1 f2 show ?thesis by blast
qed

section \<open>The example catalogs are reachable\<close>

lemma one_file_reachable:
  "fst (run_ops [save_a] (NewStorage ''./storage'', Map.empty)) = one_file"
  by (simp add: SaveFile_ok NewStorage_def decimal_eval)

lemma two_files_reachable:
  "fst (run_ops [save_a, save_b] (NewStorage ''./storage'', Map.empty)) = two_files"
  by (simp add: SaveFile_ok NewStorage_def decimal_eval)

lemma card_one_file: "card (dom (files one_file)) = 1"
  by simp

lemma card_two_files: "card (dom (files two_files)) = 2"
  by simp

lemmas ListFiles_eval = ListFiles_def Let_def

section \<open>The catalog over the life of the storage engine\<close>

lemma apply_op_catalog_ok: "catalog_ok (fst w) \<Longrightarrow> catalog_ok (fst (apply_op c w))"
proof (cases c)
  case (Save env fname data)
  obtain s d where w: "w = (s, d)" by (cases w)
  assume ok: "catalog_ok (fst w)"
  show ?thesis
  proof (cases "write_result env")
    case WriteOk
    with ok show ?thesis
      by (auto simp: Save w SaveFile_ok catalog_ok_def)
  next
    case (OpenFailed e)
    with ok show ?thesis by (simp add: Save w SaveFile_open_failed)
  next
    case (WriteFailed n e)
    with ok show ?thesis by (simp add: Save w SaveFile_write_failed)
  qed
next
  case (Get fid)
  assume "catalog_ok (fst w)"
  then show ?thesis by (cases w) (simp add: Get)
next
  case (List ks ps pn)
  assume "catalog_ok (fst w)"
  then show ?thesis by (cases w) (simp add: List)
qed

lemma run_ops_catalog_ok: "catalog_ok (fst w) \<Longrightarrow> catalog_ok (fst (run_ops ops w))"
  by (induction ops arbitrary: w) (simp_all add: apply_op_catalog_ok)

lemma NewStorage_catalog_ok: "catalog_ok (NewStorage dir)"
  by (simp add: catalog_ok_def NewStorage_def)

lemma reachable_catalog_ok: "catalog_ok (fst (run_ops ops (NewStorage dir, d0)))"
  by (rule run_ops_catalog_ok) (simp add: NewStorage_catalog_ok)

lemma apply_op_files:
  "files (fst (apply_op c (s, d))) =
     (case c of
        Save env fname data \<Rightarrow>
          (if write_result env = WriteOk
           then (files s)(Sprintf_d (clock_UnixNano env) \<mapsto>
                  \<lparr>FileId = Sprintf_d (clock_UnixNano env), Filename = fname,
                   Size = int (length data), CreatedAt = clock_Unix env,
                   UpdatedAt = clock_Unix env\<rparr>)
           else files s)
      | Get fid \<Rightarrow> files s
      | List ks ps pn \<Rightarrow> files s)"
proof (cases c)
  case (Save env fname data)
  then show ?thesis
    by (cases "write_result env")
      (simp_all add: SaveFile_ok SaveFile_open_failed SaveFile_write_failed)
qed simp_all

text \<open>
  Two saves that read the same nanosecond: the second replaces the catalog entry of the
  first (another filename, size and creation time under the same identifier).
\<close>

theorem SaveFile_same_instant_replaces_entry:
  "files (fst (run_ops
      [Save \<lparr>clock_UnixNano = 1730000000123456789, clock_Unix = 1730000000,
             write_result = WriteOk\<rparr> ''a.txt'' [1]]
      (NewStorage ''./storage'', Map.empty))) ''1730000000123456789'' =
     Some \<lparr>FileId = ''1730000000123456789'', Filename = ''a.txt'', Size = 1,
           CreatedAt = 1730000000, UpdatedAt = 1730000000\<rparr> \<and>
   files (fst (run_ops
      [Save \<lparr>clock_UnixNano = 1730000000123456789, clock_Unix = 1730000000,
             write_result = WriteOk\<rparr> ''a.txt'' [1],
       Save \<lparr>clock_UnixNano = 1730000000123456789, clock_Unix = 1730000001,
             write_result = WriteOk\<rparr> ''b.txt'' [2, 3]]
      (NewStorage ''./storage'', Map.empty))) ''1730000000123456789'' =
     Some \<lparr>FileId = ''1730000000123456789'', Filename = ''b.txt'', Size = 2,
           CreatedAt = 1730000001, UpdatedAt = 1730000001\<rparr>"
  by (simp add: SaveFile_ok NewStorage_def decimal_eval)

text \<open>
  Claim C9, as amended. In every state reachable from a fresh storage by calls of
  \<^verbatim>\<open>SaveFile\<close>, \<^verbatim>\<open>GetFile\<close> and \<^verbatim>\<open>ListFiles\<close>, every catalog entry has
  \<open>UpdatedAt = CreatedAt\<close>. No call removes an entry: the set of identifiers only grows.
  \<^verbatim>\<open>GetFile\<close>, \<^verbatim>\<open>ListFiles\<close> and a \<^verbatim>\<open>SaveFile\<close> whose write fails leave the catalog
  exactly as it is. A \<^verbatim>\<open>SaveFile\<close> whose write completes changes the catalog at the
  identifier it generates and nowhere else: it stores the new entry there, in place of
  the entry already stored under that identifier if there is one.
\<close>

theorem catalog_entries_created_once:
  "(\<forall>fid m. files (fst (run_ops ops (NewStorage dir, d0))) fid = Some m \<longrightarrow>
      UpdatedAt m = CreatedAt m) \<and>
   dom (files (fst w)) \<subseteq> dom (files (fst (apply_op c w))) \<and>
   ((\<forall>env fname data. c = Save env fname data \<longrightarrow> write_result env \<noteq> WriteOk) \<longrightarrow>
      files (fst (apply_op c w)) = files (fst w)) \<and>
   (\<forall>env fname data. c = Save env fname data \<and> write_result env = WriteOk \<longrightarrow>
      files (fst (apply_op c w)) =
        (files (fst w))(Sprintf_d (clock_UnixNano env) \<mapsto>
           \<lparr>FileId = Sprintf_d (clock_UnixNano env), Filename = fname,
            Size = int (length data), CreatedAt = clock_Unix env,
            UpdatedAt = clock_Unix env\<rparr>))"
proof (intro conjI)
  from reachable_catalog_ok [of ops dir d0]
  show "\<forall>fid m. files (fst (run_ops ops (NewStorage dir, d0))) fid = Some m \<longrightarrow>
      UpdatedAt m = CreatedAt m"
    by (simp add: catalog_ok_def)
next
  obtain s d where w: "w = (s, d)" by (cases w)
  show "dom (files (fst w)) \<subseteq> dom (files (fst (apply_op c w)))"
    unfolding w apply_op_files by (cases c) auto
next
  obtain s d where w: "w = (s, d)" by (cases w)
  show "(\<forall>env fname data. c = Save env fname data \<longrightarrow> write_result env \<noteq> WriteOk) \<longrightarrow>
      files (fst (apply_op c w)) = files (fst w)"
    unfolding w apply_op_files by (cases c) auto
next
  obtain s d where w: "w = (s, d)" by (cases w)
  show "\<forall>env fname data. c = Save env fname data \<and> write_result env = WriteOk \<longrightarrow>
      files (fst (apply_op c w)) =
        (files (fst w))(Sprintf_d (clock_UnixNano env) \<mapsto>
           \<lparr>FileId = Sprintf_d (clock_UnixNano env), Filename = fname,
            Size = int (length data), CreatedAt = clock_Unix env,
            UpdatedAt = clock_Unix env\<rparr>)"
    unfolding w apply_op_files by (cases c) auto
qed

text \<open>
  On the catalog with the one file \<open>a\<close>: the entry has equal timestamps; a save at the
  same nanosecond whose write fails, and a \<^verbatim>\<open>GetFile\<close>, leave the catalog as it is; a
  save at the same nanosecond whose write completes puts its entry in the place of \<open>a\<close>;
  a save one nanosecond later adds its entry beside \<open>a\<close>.
\<close>

theorem catalog_entries_created_once_witness:
  "files (fst (run_ops [save_a] (NewStorage ''./storage'', Map.empty))) id_a = Some file_a \<and>
   UpdatedAt file_a = CreatedAt file_a \<and>
   files (fst (apply_op
      (Save \<lparr>clock_UnixNano = 1730000000123456789, clock_Unix = 1730000001,
             write_result = OpenFailed ''permission denied''\<rparr> ''b.txt'' [2, 3])
      (one_file, [''./storage/1730000000123456789'' \<mapsto> [104, 101, 108, 108, 111]]))) =
     files one_file \<and>
   files (fst (apply_op (Get id_a)
      (one_file, [''./storage/1730000000123456789'' \<mapsto> [104, 101, 108, 108, 111]]))) =
     files one_file \<and>
   files (fst (apply_op
      (Save \<lparr>clock_UnixNano = 1730000000123456789, clock_Unix = 1730000001,
             write_result = WriteOk\<rparr> ''b.txt'' [2, 3])
      (one_file, [''./storage/1730000000123456789'' \<mapsto> [104, 101, 108, 108, 111]]))) =
     [id_a \<mapsto> \<lparr>FileId = id_a, Filename = ''b.txt'', Size = 2,
                 CreatedAt = 1730000001, UpdatedAt = 1730000001\<rparr>] \<and>
   files (fst (apply_op save_b
      (one_file, [''./storage/1730000000123456789'' \<mapsto> [104, 101, 108, 108, 111]]))) =
     files two_files"
proof -
  let ?w = "(one_file, [''./storage/1730000000123456789'' \<mapsto> [104, 101, 108, 108, 111 :: 8 word]])"
  let ?fail = "Save \<lparr>clock_UnixNano = 1730000000123456789, clock_Unix = 1730000001,
             write_result = OpenFailed ''permission denied''\<rparr> ''b.txt'' [2, 3]"
  let ?again = "Save \<lparr>clock_UnixNano = 1730000000123456789, clock_Unix = 1730000001,
             write_result = WriteOk\<rparr> ''b.txt'' [2, 3]"
  have look: "files (fst (run_ops [save_a] (NewStorage ''./storage'', Map.empty))) id_a =
      Some file_a"
    by (simp only: one_file_reachable) simp
  from catalog_entries_created_once [of "[save_a]" "''./storage''" Map.empty ?w ?fail] look
  have inv: "UpdatedAt file_a = CreatedAt file_a" by blast
  have f: "\<forall>env fname data. ?fail = Save env fname data \<longrightarrow> write_result env \<noteq> WriteOk"
    by simp
  from catalog_entries_created_once [of "[save_a]" "''./storage''" Map.empty ?w ?fail] f
  have failed: "files (fst (apply_op ?fail ?w)) = files one_file" by simp
  have g: "\<forall>env fname data. Get id_a = Save env fname data \<longrightarrow> write_result env \<noteq> WriteOk"
    by simp
  from catalog_entries_created_once [of "[save_a]" "''./storage''" Map.empty ?w "Get id_a"] g
  have got: "files (fst (apply_op (Get id_a) ?w)) = files one_file" by simp
  from catalog_entries_created_once [of "[save_a]" "''./storage''" Map.empty ?w ?again]
  have "files (fst (apply_op ?again ?w)) =
      (files (fst ?w))(Sprintf_d 1730000000123456789 \<mapsto>
         \<lparr>FileId = Sprintf_d 1730000000123456789, Filename = ''b.txt'',
          Size = int (length [2, 3 :: 8 word]), CreatedAt = 1730000001,
          UpdatedAt = 1730000001\<rparr>)"
    by simp
  then have again: "files (fst (apply_op ?again ?w)) =
      [id_a \<mapsto> \<lparr>FileId = id_a, Filename = ''b.txt'', Size = 2,
                 CreatedAt = 1730000001, UpdatedAt = 1730000001\<rparr>]"
    by (simp add: decimal_eval)
  from catalog_entries_created_once [of "[save_a]" "''./storage''" Map.empty ?w save_b]
  have "files (fst (apply_op save_b ?w)) =
      (files (fst ?w))(Sprintf_d 1730000000123456790 \<mapsto>
         \<lparr>FileId = Sprintf_d 1730000000123456790, Filename = ''b.txt'',
          Size = int (length [2, 3 :: 8 word]), CreatedAt = 1730000001,
          UpdatedAt = 1730000001\<rparr>)"
    by simp
  then have other: "files (fst (apply_op save_b ?w)) = files two_files"
    by (simp add: decimal_eval)
  from look inv failed got again other show ?thesis by blast
qed

section \<open>\<^verbatim>\<open>ListFiles\<close>: the window of a page\<close>

text \<open>The loop returns the entries it meets at the positions from \<open>start\<close> up to \<open>end\<close>.\<close>

lemma list_loop_window:
  "list_loop start e i acc xs = acc @ drop (nat (start - i)) (take (nat (e - i)) xs)"
proof (induction xs arbitrary: i acc)
  case Nil
  show ?case by simp
next
  case (Cons x xs)
  show ?case
  proof (cases "i + 1 \<ge> e")
    case True
    then have "nat (e - i) = 0 \<or> nat (e - i) = 1" by arith
    then show ?thesis
    proof
      assume z: "nat (e - i) = 0"
      then have "\<not> i < e" by arith
      with True z show ?thesis by (simp add: Let_def)
    next
      assume o: "nat (e - i) = 1"
      then have ie: "i < e" by arith
      show ?thesis
      proof (cases "start \<le> i")
        case True
        then have "nat (start - i) = 0" by simp
        with \<open>i + 1 \<ge> e\<close> o ie True show ?thesis by (simp add: Let_def)
      next
        case False
        then have "nat (start - i) = Suc (nat (start - i - 1))" by arith
        with \<open>i + 1 \<ge> e\<close> o ie False show ?thesis by (simp add: Let_def)
      qed
    qed
  next
    case False
    then have ie: "i < e" and t: "nat (e - i) = Suc (nat (e - (i + 1)))" by arith+
    show ?thesis
    proof (cases "start \<le> i")
      case True
      then have "nat (start - i) = 0" "nat (start - (i + 1)) = 0" by simp_all
      with False ie t True Cons.IH [of "i + 1" "acc @ [x]"] show ?thesis
        by (simp add: Let_def)
    next
      case nle: False
      then have "nat (start - i) = Suc (nat (start - (i + 1)))" by arith
      with False ie t nle Cons.IH [of "i + 1" acc] show ?thesis
        by (simp add: Let_def)
    qed
  qed
qed

lemma map_filter_dom:
  "set ks \<subseteq> dom m \<Longrightarrow> List.map_filter m ks = map (\<lambda>k. the (m k)) ks"
  by (induction ks) (auto simp: List.map_filter_simps)

lemma range_order_length: "range_order s ks \<Longrightarrow> length ks = card (dom (files s))"
  by (metis distinct_card range_order_def)

text \<open>
  \<^verbatim>\<open>ListFiles\<close> in closed form, for a \<^verbatim>\<open>range\<close> that enumerates the catalog: the
  capacity \<open>end - start\<close> is \<open>min pageSize (len - start)\<close>, so the call panics exactly
  when the page size is negative or the page starts beyond the catalog.
\<close>

lemma ListFiles_window:
  assumes "range_order s ks"
  shows "ListFiles s ks pageSize pageNumber =
     (if sint pageSize < 0 \<or>
         int (card (dom (files s))) < sint pageSize * (sint pageNumber - 1)
      then Inl (Panic ''makeslice: cap out of range'')
      else Inr (drop (nat (sint pageSize * (sint pageNumber - 1)))
                  (take (nat (sint pageSize * (sint pageNumber - 1) + sint pageSize))
                     (map (\<lambda>k. the (files s k)) ks)),
                word_of_int (int (card (dom (files s))))))"
proof -
  from assms have sub: "set ks \<subseteq> dom (files s)" by (simp add: range_order_def)
  have len: "length ks = card (dom (files s))" using assms by (rule range_order_length)
  let ?n = "int (card (dom (files s)))"
  let ?start = "sint pageSize * (sint pageNumber - 1)"
  let ?xs = "map (\<lambda>k. the (files s k)) ks"
  have tk: "take (nat (if ?start + sint pageSize > ?n then ?n else ?start + sint pageSize)) ?xs =
      take (nat (?start + sint pageSize)) ?xs"
    using len by simp
  show ?thesis
    unfolding ListFiles_def Let_def map_filter_dom [OF sub] list_loop_window
    using tk by (auto simp: Let_def)
qed

lemma ListFiles_panics_iff:
  assumes "range_order s ks"
  shows "(\<exists>msg. ListFiles s ks pageSize pageNumber = Inl msg) \<longleftrightarrow>
     sint pageSize < 0 \<or> int (card (dom (files s))) < sint pageSize * (sint pageNumber - 1)"
  by (simp add: ListFiles_window [OF assms])

text \<open>
  The arithmetic on Go's \<^verbatim>\<open>int\<close> never leaves the 64-bit range, whatever the two
  \<^verbatim>\<open>int32\<close> arguments: writing it on \<^typ>\<open>int\<close> loses nothing.
\<close>

lemma ListFiles_arithmetic_fits_int64:
  fixes pageSize pageNumber :: int32
  shows "- (2 ^ 63) \<le> sint pageSize * (sint pageNumber - 1) \<and>
         sint pageSize * (sint pageNumber - 1) < 2 ^ 63 \<and>
         - (2 ^ 63) \<le> sint pageSize * (sint pageNumber - 1) + sint pageSize \<and>
         sint pageSize * (sint pageNumber - 1) + sint pageSize < 2 ^ 63"
proof -
  let ?start = "sint pageSize * (sint pageNumber - 1)"
  have a: "\<bar>sint pageSize\<bar> \<le> 2 ^ 31"
    using sint_ge [of pageSize] sint_lt [of pageSize] by simp
  have b: "\<bar>sint pageNumber - 1\<bar> \<le> 2 ^ 31 + 1"
    using sint_ge [of pageNumber] sint_lt [of pageNumber] by simp
  have "\<bar>?start\<bar> = \<bar>sint pageSize\<bar> * \<bar>sint pageNumber - 1\<bar>"
    by (simp add: abs_mult)
  also have "\<dots> \<le> 2 ^ 31 * (2 ^ 31 + 1)"
    using a b by (intro mult_mono) simp_all
  finally have "\<bar>?start\<bar> \<le> 4611686020574871552" by simp
  moreover from a have "\<bar>sint pageSize\<bar> \<le> 2147483648" by simp
  ultimately show ?thesis by (simp del: sint_sbintrunc') linarith
qed

subsection \<open>Pages outside the catalog\<close>

text \<open>
  Claim C2 says that \<^verbatim>\<open>ListFiles\<close> returns normally for every page size and page
  number, with an empty or full window for the degenerate ones, and never aborts. The
  code at such an input: the catalog holds one file and the caller asks for page 2 with
  page size 10. Then \<open>start = 10\<close>, \<open>end = min 20 1 = 1\<close>, and
  \<^verbatim>\<open>make([]*pb.FileMetadata, 0, end-start)\<close> is called with capacity \<open>-9\<close>: a run-time
  panic. The same happens for page size \<open>-1\<close>, and the panic leaves the handler of the
  server as a panic.
\<close>

theorem ListFiles_page_beyond_catalog_panics:
  "fst (run_ops [save_a] (NewStorage ''./storage'', Map.empty)) = one_file \<and>
   range_order one_file [id_a] \<and>
   ListFiles one_file [id_a] 10 2 = Inl (Panic ''makeslice: cap out of range'') \<and>
   ListFiles one_file [id_a] (- 1) 1 = Inl (Panic ''makeslice: cap out of range'') \<and>
   list_result (server_ListFiles [id_a] (NewServer one_file) 10 2) =
     Inl (Panic ''makeslice: cap out of range'')"
proof -
  have a: "ListFiles one_file [id_a] 10 2 = Inl (Panic ''makeslice: cap out of range'')"
    by (simp add: ListFiles_eval)
  have b: "ListFiles one_file [id_a] (- 1) 1 = Inl (Panic ''makeslice: cap out of range'')"
    by (simp add: ListFiles_eval)
  have c: "list_result (server_ListFiles [id_a] (NewServer one_file) 10 2) =
     Inl (Panic ''makeslice: cap out of range'')"
    by (simp add: server_ListFiles_def ListFiles_body_def a NewServer_def make_chan_def
        MaxListConcurrency_def)
  have r: "range_order one_file [id_a]" by (simp add: range_order_def)
  from one_file_reachable r a b c show ?thesis by blast
qed

subsection \<open>Pagination coverage\<close>

lemma take_chunks_concat:
  "concat (map (\<lambda>p. take n (drop (n * p) xs)) [0..<P]) = take (n * P) xs"
proof (induction P)
  case 0
  show ?case by simp
next
  case (Suc P)
  have "take (n * Suc P) xs = take (n * P + n) xs" by (simp add: add.commute)
  also have "\<dots> = take (n * P) xs @ take n (drop (n * P) xs)" by (rule take_add)
  finally show ?case using Suc by simp
qed

lemma entries_catalog:
  assumes "range_order s ks" and "catalog_ok s"
  shows "map FileId (map (\<lambda>k. the (files s k)) ks) = ks"
    and "set (map (\<lambda>k. the (files s k)) ks) = ran (files s)"
proof -
  from assms(1) have d: "set ks = dom (files s)" by (simp add: range_order_def)
  have "\<And>k. k \<in> set ks \<Longrightarrow> FileId (the (files s k)) = k"
    using d assms(2) by (auto simp: catalog_ok_def)
  then show "map FileId (map (\<lambda>k. the (files s k)) ks) = ks"
    by (simp add: map_idI)
  show "set (map (\<lambda>k. the (files s k)) ks) = ran (files s)"
    using d by (auto simp: ran_def dom_def) force+
qed


lemma sint_word_of_nat_int32:
  "k < 2 ^ 31 \<Longrightarrow> sint (word_of_nat k :: int32) = int k"
proof -
  assume "k < 2 ^ 31"
  then have "int k < 2 ^ 31" by (metis of_nat_less_iff of_nat_numeral of_nat_power)
  then show ?thesis
    by (simp add: signed_of_nat signed_take_bit_int_eq_self)
qed

lemma page_start_inside:
  assumes n: "0 < n" and p: "p < page_count N n"
  shows "n * p < N"
proof -
  from p have "Suc p \<le> (N + n - 1) div n" by (simp add: page_count_def)
  with n have "Suc p * n \<le> N + n - 1" by (simp add: less_eq_div_iff_mult_less_eq)
  then have "p * n + n \<le> N + n - 1" by simp
  with n have "p * n < N" by arith
  then show ?thesis by (simp add: mult.commute)
qed

lemma page_count_le:
  assumes n: "0 < n"
  shows "page_count N n \<le> N"
proof (rule ccontr)
  assume "\<not> page_count N n \<le> N"
  then have "N < page_count N n" by simp
  with n have "n * N < N" by (rule page_start_inside)
  moreover from n have "N * 1 \<le> N * n" by (intro mult_le_mono2) simp
  ultimately show False by (simp add: mult.commute)
qed

lemma pages_reach_end: "0 < n \<Longrightarrow> N \<le> n * page_count N n"
proof -
  assume n: "0 < n"
  have "N + n - 1 = n * ((N + n - 1) div n) + (N + n - 1) mod n" by simp
  moreover have "(N + n - 1) mod n < n" using n by simp
  ultimately show ?thesis unfolding page_count_def by linarith
qed


lemma ListFiles_page:
  assumes ord: "range_order s ks"
    and ps: "0 < sint pageSize"
    and small: "card (dom (files s)) < 2 ^ 31"
    and p: "p < page_count (card (dom (files s))) (nat (sint pageSize))"
  shows "ListFiles s ks pageSize (word_of_nat (p + 1)) =
     Inr (take (nat (sint pageSize))
            (drop (nat (sint pageSize) * p) (map (\<lambda>k. the (files s k)) ks)),
          word_of_nat (card (dom (files s))))"
proof -
  let ?N = "card (dom (files s))"
  let ?xs = "map (\<lambda>k. the (files s k)) ks"
  define n where "n = nat (sint pageSize)"
  from ps have n: "0 < n" and sn: "sint pageSize = int n" by (simp_all add: n_def)
  from p have p': "p < page_count ?N n" by (simp only: n_def)
  from p' page_count_le [OF n, of ?N] small have "p + 1 < 2 ^ 31" by simp
  then have pn: "sint (word_of_nat (p + 1) :: int32) = int (p + 1)"
    by (rule sint_word_of_nat_int32)
  have start: "sint pageSize * (sint (word_of_nat (p + 1) :: int32) - 1) = int (n * p)"
    unfolding pn sn by simp
  have inside: "n * p < ?N" using n p' by (rule page_start_inside)
  have ends: "int (n * p) + sint pageSize = int (n * p + n)"
    unfolding sn by simp
  from inside have "int n * int p < int ?N"
    by (metis of_nat_less_iff of_nat_mult)
  with ps have neg: "\<not> (sint pageSize < 0 \<or> int ?N < int (n * p))"
    by simp
  have "ListFiles s ks pageSize (word_of_nat (p + 1)) =
      Inr (drop (n * p) (take (n * p + n) ?xs), word_of_int (int ?N))"
    unfolding ListFiles_window [OF ord] start ends nat_int using neg by simp
  also have "drop (n * p) (take (n * p + n) ?xs) = take n (drop (n * p) ?xs)"
    by (simp add: take_drop add.commute)
  finally show ?thesis by (simp add: n_def)
qed

text \<open>
  Each call of \<^verbatim>\<open>ListFiles\<close> ranges over the map anew, and Go fixes no order between
  two \<^verbatim>\<open>range\<close> loops over the same map. On the catalog with the two files, page size
  1: a first call that meets \<open>a\<close> before \<open>b\<close> returns \<open>a\<close> as page 1, a second call that
  meets \<open>b\<close> before \<open>a\<close> returns \<open>a\<close> again as page 2. The two pages together hold one
  entry of two.
\<close>

theorem ListFiles_pages_overlap_between_calls:
  "fst (run_ops [save_a, save_b] (NewStorage ''./storage'', Map.empty)) = two_files \<and>
   range_order two_files [id_a, id_b] \<and>
   range_order two_files [id_b, id_a] \<and>
   page_count (card (dom (files two_files))) (nat (sint (1 :: int32))) = 2 \<and>
   ListFiles two_files [id_a, id_b] 1 1 = Inr ([file_a], 2) \<and>
   ListFiles two_files [id_b, id_a] 1 2 = Inr ([file_a], 2)"
proof -
  have r1: "range_order two_files [id_a, id_b]" by (auto simp: range_order_def)
  have r2: "range_order two_files [id_b, id_a]" by (auto simp: range_order_def)
  have pc: "page_count (card (dom (files two_files))) (nat (sint (1 :: int32))) = 2"
    by (simp add: page_count_def)
  have a: "ListFiles two_files [id_a, id_b] 1 1 = Inr ([file_a], 2)"
    by (simp add: ListFiles_eval)
  have b: "ListFiles two_files [id_b, id_a] 1 2 = Inr ([file_a], 2)"
    by (simp add: ListFiles_eval)
  from two_files_reachable r1 r2 pc a b show ?thesis by blast
qed

text \<open>
  Claim C3, as amended. For every catalog reachable from a fresh storage, with \<open>N\<close>
  entries, \<open>N < 2^31\<close>, and every page size \<open>n > 0\<close>: the \<^verbatim>\<open>int32\<close> total is \<open>N\<close>;
  every call for a page \<open>1 .. ceil(N/n)\<close>, in whatever order its \<^verbatim>\<open>range\<close> meets the
  catalog, returns normally with total count \<open>N\<close> and \<open>min n (N - n * (page - 1))\<close>
  entries of the catalog with distinct identifiers; and when the calls for all these pages
  meet the catalog in one and the same order, the pages together hold \<open>N\<close> entries with
  no duplicate identifier, and they are the entries of the catalog.
\<close>

theorem ListFiles_pages_cover_catalog:
  assumes reach: "s = fst (run_ops ops (NewStorage dir, d0))"
    and ps: "0 < sint pageSize"
    and small: "card (dom (files s)) < 2 ^ 31"
  shows
    "sint (word_of_nat (card (dom (files s))) :: int32) = int (card (dom (files s))) \<and>
     (\<forall>ks p. range_order s ks \<and>
          p < page_count (card (dom (files s))) (nat (sint pageSize)) \<longrightarrow>
        (\<exists>page. ListFiles s ks pageSize (word_of_nat (p + 1)) =
                  Inr (page, word_of_nat (card (dom (files s)))) \<and>
                length page =
                  min (nat (sint pageSize)) (card (dom (files s)) - nat (sint pageSize) * p) \<and>
                distinct (map FileId page) \<and> set page \<subseteq> ran (files s))) \<and>
     (\<forall>ks. range_order s ks \<longrightarrow>
        (\<exists>pages. length pages = page_count (card (dom (files s))) (nat (sint pageSize)) \<and>
           (\<forall>p < length pages.
              ListFiles s ks pageSize (word_of_nat (p + 1)) =
                Inr (pages ! p, word_of_nat (card (dom (files s))))) \<and>
           length (concat pages) = card (dom (files s)) \<and>
           distinct (map FileId (concat pages)) \<and>
           set (concat pages) = ran (files s)))"
proof (intro conjI allI impI)
  show "sint (word_of_nat (card (dom (files s))) :: int32) = int (card (dom (files s)))"
    using small by (rule sint_word_of_nat_int32)
next
  fix ks p
  let ?N = "card (dom (files s))"
  let ?n = "nat (sint pageSize)"
  let ?xs = "map (\<lambda>k. the (files s k)) ks"
  let ?page = "take ?n (drop (?n * p) ?xs)"
  assume a: "range_order s ks \<and> p < page_count ?N ?n"
  then have ord: "range_order s ks" and p: "p < page_count ?N ?n" by simp_all
  have ok: "catalog_ok s" unfolding reach by (rule reachable_catalog_ok)
  have call: "ListFiles s ks pageSize (word_of_nat (p + 1)) = Inr (?page, word_of_nat ?N)"
    using ord ps small p by (rule ListFiles_page)
  have len: "length ?page = min ?n (?N - ?n * p)"
    by (simp add: range_order_length [OF ord])
  have "map FileId ?page = take ?n (drop (?n * p) (map FileId ?xs))"
    by (simp only: take_map drop_map)
  also have "\<dots> = take ?n (drop (?n * p) ks)"
    by (simp only: entries_catalog(1) [OF ord ok])
  finally have dis: "distinct (map FileId ?page)"
    using ord by (simp add: range_order_def)
  have "set ?page \<subseteq> set ?xs"
    by (meson set_drop_subset set_take_subset subset_trans)
  then have sub: "set ?page \<subseteq> ran (files s)"
    by (simp only: entries_catalog(2) [OF ord ok])
  from call len dis sub
  show "\<exists>page. ListFiles s ks pageSize (word_of_nat (p + 1)) = Inr (page, word_of_nat ?N) \<and>
      length page = min ?n (?N - ?n * p) \<and> distinct (map FileId page) \<and>
      set page \<subseteq> ran (files s)"
    by blast
next
  fix ks
  let ?N = "card (dom (files s))"
  let ?n = "nat (sint pageSize)"
  let ?xs = "map (\<lambda>k. the (files s k)) ks"
  let ?pages = "map (\<lambda>p. take ?n (drop (?n * p) ?xs)) [0..<page_count ?N ?n]"
  assume ord: "range_order s ks"
  have ok: "catalog_ok s" unfolding reach by (rule reachable_catalog_ok)
  from ps have n: "0 < ?n" by simp
  have l: "length ?pages = page_count ?N ?n" by simp
  have calls: "\<forall>p < length ?pages.
      ListFiles s ks pageSize (word_of_nat (p + 1)) = Inr (?pages ! p, word_of_nat ?N)"
    using ListFiles_page [OF ord ps small] by simp
  have "concat ?pages = take (?n * page_count ?N ?n) ?xs"
    by (rule take_chunks_concat)
  also have "\<dots> = ?xs"
    using pages_reach_end [OF n, of ?N] by (simp add: range_order_length [OF ord])
  finally have c: "concat ?pages = ?xs" .
  have cl: "length (concat ?pages) = ?N"
    unfolding c by (simp add: range_order_length [OF ord])
  have cd: "distinct (map FileId (concat ?pages))"
    unfolding c entries_catalog(1) [OF ord ok] using ord by (simp add: range_order_def)
  have cs: "set (concat ?pages) = ran (files s)"
    unfolding c by (rule entries_catalog(2) [OF ord ok])
  from l calls cl cd cs
  show "\<exists>pages. length pages = page_count ?N ?n \<and>
      (\<forall>p < length pages.
         ListFiles s ks pageSize (word_of_nat (p + 1)) = Inr (pages ! p, word_of_nat ?N)) \<and>
      length (concat pages) = ?N \<and> distinct (map FileId (concat pages)) \<and>
      set (concat pages) = ran (files s)"
    by blast
qed

text \<open>The two-file catalog, page size 1, both pages in the order \<open>a\<close>, \<open>b\<close>.\<close>

theorem ListFiles_pages_cover_catalog_witness:
  "two_files = fst (run_ops [save_a, save_b] (NewStorage ''./storage'', Map.empty)) \<and>
   0 < sint (1 :: int32) \<and>
   card (dom (files two_files)) < 2 ^ 31 \<and>
   range_order two_files [id_a, id_b] \<and>
   (\<exists>pages. length pages = 2 \<and>
      (\<forall>p < length pages.
         ListFiles two_files [id_a, id_b] 1 (word_of_nat (p + 1)) = Inr (pages ! p, 2)) \<and>
      length (concat pages) = 2 \<and>
      distinct (map FileId (concat pages)) \<and>
      set (concat pages) = ran (files two_files)) \<and>
   ListFiles two_files [id_a, id_b] 1 1 = Inr ([file_a], 2) \<and>
   ListFiles two_files [id_a, id_b] 1 2 = Inr ([file_b], 2)"
proof -
  have h1: "two_files = fst (run_ops [save_a, save_b] (NewStorage ''./storage'', Map.empty))"
    by (rule two_files_reachable [symmetric])
  have h2: "0 < sint (1 :: int32)" by simp
  have h3: "card (dom (files two_files)) < 2 ^ 31" by simp
  have r: "range_order two_files [id_a, id_b]" by (auto simp: range_order_def)
  have pc: "page_count 2 (nat (sint (1 :: int32))) = 2"
    by (simp add: page_count_def)
  have wn: "(word_of_nat 2 :: int32) = 2" by simp
  from ListFiles_pages_cover_catalog [OF h1 h2 h3] r
  have "\<exists>pages. length pages = page_count (card (dom (files two_files))) (nat (sint (1 :: int32))) \<and>
      (\<forall>p < length pages.
         ListFiles two_files [id_a, id_b] 1 (word_of_nat (p + 1)) =
           Inr (pages ! p, word_of_nat (card (dom (files two_files))))) \<and>
      length (concat pages) = card (dom (files two_files)) \<and>
      distinct (map FileId (concat pages)) \<and>
      set (concat pages) = ran (files two_files)"
    by blast
  then have e: "\<exists>pages. length pages = 2 \<and>
      (\<forall>p < length pages.
         ListFiles two_files [id_a, id_b] 1 (word_of_nat (p + 1)) = Inr (pages ! p, 2)) \<and>
      length (concat pages) = 2 \<and>
      distinct (map FileId (concat pages)) \<and>
      set (concat pages) = ran (files two_files)"
    unfolding card_two_files pc wn .
  have a: "ListFiles two_files [id_a, id_b] 1 1 = Inr ([file_a], 2)"
    by (simp add: ListFiles_eval)
  have b: "ListFiles two_files [id_a, id_b] 1 2 = Inr ([file_b], 2)"
    by (simp add: ListFiles_eval)
  from h1 h2 h3 r e a b show ?thesis by blast
qed

end
